theory Spec2Isabelle
  imports Complex_Main
begin

section \<open>The data of \<open>useScrollingNavigation.tsx\<close>\<close>

text \<open>
  \<open>export enum ScrollDirection { x, y }\<close>. The members carry the enum's name, since
  \<open>x\<close> and \<open>y\<close> alone would capture every variable of that name.
\<close>

datatype ScrollDirection = ScrollDirection_x | ScrollDirection_y

text \<open>
  JavaScript numbers are IEEE doubles; they are idealised as reals here, so
  \<open>width * 0.1\<close> is exactly a tenth of the width. A value of type \<open>js_number\<close> is a
  number or is not one: \<open>None\<close> stands for \<open>undefined\<close> where a property or an array
  item is read, and for \<open>NaN\<close> where arithmetic was done on it (\<open>undefined + 1\<close> is
  \<open>NaN\<close> in JavaScript, and \<open>NaN\<close> is absorbing).
\<close>

type_synonym js_number = "real option"

definition js_add :: "js_number \<Rightarrow> js_number \<Rightarrow> js_number" where
  "js_add a b = (case a of None \<Rightarrow> None | Some u \<Rightarrow> (case b of None \<Rightarrow> None | Some v \<Rightarrow> Some (u + v)))"

definition js_sub :: "js_number \<Rightarrow> js_number \<Rightarrow> js_number" where
  "js_sub a b = (case a of None \<Rightarrow> None | Some u \<Rightarrow> (case b of None \<Rightarrow> None | Some v \<Rightarrow> Some (u - v)))"

text \<open>
  Reading item \<open>i\<close> of an array, as the destructuring \<open>let [a, b, c, d] = ...\<close> does:
  an index past the end reads \<open>undefined\<close>.
\<close>

definition item :: "js_number list \<Rightarrow> nat \<Rightarrow> js_number" where
  "item xs i = (if i < length xs then xs ! i else None)"

text \<open>
  The rectangle returned by \<open>getBoundingClientRect()\<close>. The fields are \<open>left\<close>,
  \<open>top\<close>, \<open>right\<close> and \<open>bottom\<close> in the DOM; they are prefixed because \<open>top\<close> is a
  constant of HOL.
\<close>

record DOMRect =
  rect_left :: real
  rect_top :: real
  rect_right :: real
  rect_bottom :: real

text \<open>
  What \<open>useWindowDimensions()\<close> returns. The hook itself lives in another file; its
  result is a parameter wherever the code reads it.
\<close>

record WindowDimensions =
  width :: real
  height :: real

text \<open>
  An object as \<open>getScroll\<close> and the hook see the scroll container: by the properties
  they read. \<open>objectId\<close> is the identity of the object (two references are the same
  object when the identities agree). A property that the object does not have reads
  \<open>undefined\<close>, which is \<open>None\<close>; \<open>getBoundingClientRect\<close> is \<open>None\<close> when the object
  has no such method (a \<open>Window\<close> has none), and is the rectangle the call returns
  otherwise. Every container is taken to be an event target with a \<open>scrollTo\<close>
  method, as both \<open>Window\<close> and \<open>HTMLElement\<close> are.
\<close>

record js_object =
  objectId :: nat
  scrollX :: js_number
  scrollY :: js_number
  scrollLeft :: js_number
  scrollTop :: js_number
  getBoundingClientRect :: "DOMRect option"

text \<open>
  The two declared types of a container, as sets of objects: a \<open>Window\<close> has numeric
  \<open>scrollX\<close> and \<open>scrollY\<close>; an \<open>HTMLElement\<close> has no \<open>scrollX\<close>, numeric
  \<open>scrollLeft\<close> and \<open>scrollTop\<close>, and a bounding rectangle.
\<close>

definition isWindow :: "js_object \<Rightarrow> bool" where
  "isWindow element = (scrollX element \<noteq> None \<and> scrollY element \<noteq> None)"

definition isHTMLElement :: "js_object \<Rightarrow> bool" where
  "isHTMLElement element =
     (scrollX element = None \<and> scrollLeft element \<noteq> None \<and> scrollTop element \<noteq> None
      \<and> getBoundingClientRect element \<noteq> None)"

text \<open>
  An element found by \<open>document.getElementById\<close>: the hook reads nothing but its
  bounding rectangle. The document is the function from IDs to elements; \<open>None\<close> is
  the \<open>null\<close> of an ID that no element has.
\<close>

record HTMLElement =
  boundingClientRect :: DOMRect

type_synonym document = "string \<Rightarrow> HTMLElement option"

definition getElementById :: "document \<Rightarrow> string \<Rightarrow> HTMLElement option" where
  "getElementById doc elementId = doc elementId"

text \<open>
  What the code does to the outside world: a call of \<open>scrollTo\<close> on an object with
  its options, and a call of \<open>console.error\<close> with its message and the object.
\<close>

datatype ScrollBehavior = Auto | Instant | Smooth

record ScrollToOptions =
  opt_left :: js_number
  opt_top :: js_number
  opt_behavior :: ScrollBehavior

datatype effect =
    ScrollTo js_object ScrollToOptions
  | ConsoleError string js_object

datatype js_error = TypeError

section \<open>\<open>getScroll\<close>\<close>

text \<open>
  Lines 111 to 126. The result is the returned array with what was logged, or the
  \<open>TypeError\<close> of calling a method the object does not have. The parameter is an
  object: the declared type has no \<open>null\<close>, and the caller tests for it.
\<close>

definition getScroll :: "js_object \<Rightarrow> js_error + (js_number list \<times> effect list)" where
  "getScroll element =
     (if scrollX element \<noteq> None then
        Inr ([scrollX element, scrollY element, Some 0, Some 0], [])
      else if scrollLeft element \<noteq> None then
        (case getBoundingClientRect element of
           None \<Rightarrow> Inl TypeError
         | Some rect \<Rightarrow>
             Inr ([scrollLeft element, scrollTop element,
                   Some (rect_left rect), Some (rect_top rect)], []))
      else
        Inr ([Some 0, Some 0, Some 0, Some 0],
             [ConsoleError ''The element is neither of type Window or HTMLElement'' element]))"

section \<open>The effect that scrolls to the target\<close>

text \<open>
  Lines 45 to 62, the function \<open>scroll\<close> of the second effect. The result is the
  list of effects in the order they happen, or the error that \<open>getScroll\<close> raised.
\<close>

definition scroll ::
  "(unit \<Rightarrow> js_object option) \<Rightarrow> document \<Rightarrow> string \<Rightarrow> ScrollDirection \<Rightarrow> real
     \<Rightarrow> js_error + effect list" where
  "scroll getScrollContainer doc targetElement direction margin =
     (if targetElement = [] then Inr []
      else
        (case getScrollContainer () of
           None \<Rightarrow> Inr []
         | Some container \<Rightarrow>
             (case getElementById doc targetElement of
                None \<Rightarrow> Inr []
              | Some element \<Rightarrow>
                  (case getScroll container of
                     Inl err \<Rightarrow> Inl err
                   | Inr (offsets, logged) \<Rightarrow>
                       (let containerLeft = item offsets 2;
                            containerTop = item offsets 3;
                            scrollToX = js_add (item offsets 0)
                              (js_sub (js_sub (Some (rect_left (boundingClientRect element)))
                                 containerLeft) (Some margin));
                            scrollToY = js_add (item offsets 1)
                              (js_sub (js_sub (Some (rect_top (boundingClientRect element)))
                                 containerTop) (Some margin))
                        in Inr (logged @
                             [ScrollTo container
                                \<lparr>opt_left = (if direction = ScrollDirection_x then scrollToX else Some 0),
                                 opt_top = (if direction = ScrollDirection_y then scrollToY else Some 0),
                                 opt_behavior = Smooth\<rparr>]))))))"

section \<open>The scroll listener\<close>

text \<open>
  Lines 75 to 95. \<open>determineActiveElement\<close> visits the IDs in order; the result is
  the list of the calls \<open>setActiveElement(elementId)\<close> it makes, in the order it makes
  them.
\<close>

fun determineActiveElement ::
  "document \<Rightarrow> string list \<Rightarrow> ScrollDirection \<Rightarrow> WindowDimensions \<Rightarrow> string list" where
  "determineActiveElement doc [] direction windowDimensions = []"
| "determineActiveElement doc (elementId # elementsIds) direction windowDimensions =
     (case getElementById doc elementId of
        None \<Rightarrow> []
      | Some section \<Rightarrow>
          (let rect = boundingClientRect section in
           if direction = ScrollDirection_x then
             (if rect_left rect \<le> width windowDimensions * 0.1
                 \<and> rect_right rect \<ge> width windowDimensions * 0.9
              then [elementId] else [])
           else
             (if rect_top rect \<le> 120 \<and> rect_bottom rect \<ge> 120
              then [elementId] else [])))
     @ determineActiveElement doc elementsIds direction windowDimensions"

text \<open>
  The state \<open>activeElement\<close> after the setter was called with each of \<open>calls\<close> in
  turn: every call replaces the value, so the last one stays.
\<close>

definition setActiveElement :: "string \<Rightarrow> string list \<Rightarrow> string" where
  "setActiveElement activeElement calls = foldl (\<lambda>previous elementId. elementId) activeElement calls"

text \<open>
  The condition under which the listener sets a candidate ID active, as the
  specification words it: the element exists and its rectangle is within the 10%/90%
  thresholds of the window width (direction x) or spans the 120 pixel line (direction y).
\<close>

definition satisfiesThreshold ::
  "document \<Rightarrow> ScrollDirection \<Rightarrow> WindowDimensions \<Rightarrow> string \<Rightarrow> bool" where
  "satisfiesThreshold doc direction windowDimensions elementId =
     (case getElementById doc elementId of
        None \<Rightarrow> False
      | Some section \<Rightarrow>
          (case direction of
             ScrollDirection_x \<Rightarrow>
               rect_left (boundingClientRect section) \<le> width windowDimensions / 10
               \<and> width windowDimensions * 9 / 10 \<le> rect_right (boundingClientRect section)
           | ScrollDirection_y \<Rightarrow>
               rect_top (boundingClientRect section) \<le> 120
               \<and> 120 \<le> rect_bottom (boundingClientRect section)))"

section \<open>The hook under React's rules\<close>

text \<open>
  The arguments of one call of \<open>useScrollingNavigation\<close>. \<open>getScrollContainerRef\<close> is
  the identity of the function object passed as \<open>getScrollContainer\<close>: a dependency
  array compares functions by identity, and an arrow function written inline is a new
  object at every render.
\<close>

record arguments =
  getScrollContainer :: "unit \<Rightarrow> js_object option"
  getScrollContainerRef :: nat
  elementsIds :: "string list"
  activeElementId :: string
  direction :: ScrollDirection
  margin :: real

text \<open>The default values of the parameters (lines 24 to 26): an omitted argument is \<open>None\<close>.\<close>

definition withDefaults ::
  "(unit \<Rightarrow> js_object option) \<Rightarrow> nat \<Rightarrow> string list \<Rightarrow> string option
     \<Rightarrow> ScrollDirection option \<Rightarrow> real option \<Rightarrow> arguments" where
  "withDefaults f ref ids a d m =
     \<lparr>getScrollContainer = f, getScrollContainerRef = ref, elementsIds = ids,
      activeElementId = (case a of None \<Rightarrow> [] | Some v \<Rightarrow> v),
      direction = (case d of None \<Rightarrow> ScrollDirection_y | Some v \<Rightarrow> v),
      margin = (case m of None \<Rightarrow> 0 | Some v \<Rightarrow> v)\<rparr>"

text \<open>
  One mounted instance of the hook: the arguments and window dimensions of its latest
  render, its two states, the dependency arrays of the first two effects as of the
  latest render, and the cleanup the third effect returned (the container and the
  listener function that \<open>removeEventListener\<close> is to be called with), if any.
\<close>

record hook =
  args :: arguments
  windowDimensions :: WindowDimensions
  activeElement :: string
  targetElement :: string
  targetDeps :: string
  scrollDeps :: "string \<times> nat \<times> ScrollDirection \<times> real"
  cleanup :: "(nat \<times> nat) option"

text \<open>
  A registered scroll listener: the object it is attached to, the identity of the
  function, and what the closure \<open>determineActiveElement\<close> captured from its render.
\<close>

record listener =
  eventTarget :: nat
  callback :: nat
  capturedIds :: "string list"
  capturedDirection :: ScrollDirection
  capturedDimensions :: WindowDimensions

text \<open>
  The browser as far as the hook touches it: the scroll listeners this instance has
  registered, the number of listener functions created so far (the next identity), and
  the effects so far, oldest first.
\<close>

record browser =
  listeners :: "listener list"
  closures :: nat
  effects :: "effect list"

type_synonym world = "hook option \<times> browser"

definition addEventListener :: "listener \<Rightarrow> listener list \<Rightarrow> listener list" where
  "addEventListener l ls =
     (if list_ex (\<lambda>k. eventTarget k = eventTarget l \<and> callback k = callback l) ls then ls
      else ls @ [l])"

definition removeEventListener :: "nat \<Rightarrow> nat \<Rightarrow> listener list \<Rightarrow> listener list" where
  "removeEventListener target cb ls =
     filter (\<lambda>k. \<not> (eventTarget k = target \<and> callback k = cb)) ls"

text \<open>Lines 98 to 100: the cleanup of the third effect.\<close>

definition unlisten :: "hook \<Rightarrow> browser \<Rightarrow> browser" where
  "unlisten h b =
     (case cleanup h of
        None \<Rightarrow> b
      | Some (target, cb) \<Rightarrow> b\<lparr>listeners := removeEventListener target cb (listeners b)\<rparr>)"

text \<open>
  Lines 68 to 101: the third effect. It returns the cleanup and the browser with the
  new listener; with no container it returns early and there is no cleanup.
\<close>

definition listen :: "hook \<Rightarrow> browser \<Rightarrow> (nat \<times> nat) option \<times> browser" where
  "listen h b =
     (case getScrollContainer (args h) () of
        None \<Rightarrow> (None, b)
      | Some container \<Rightarrow>
          (Some (objectId container, closures b),
           b\<lparr>listeners :=
                addEventListener
                  \<lparr>eventTarget = objectId container, callback = closures b,
                   capturedIds = elementsIds (args h),
                   capturedDirection = direction (args h),
                   capturedDimensions = windowDimensions h\<rparr>
                  (listeners b),
              closures := Suc (closures b)\<rparr>))"

text \<open>
  The effects of one render, run after it. React runs the cleanup of every effect that
  is to run again, then the effects in the order they are written: the first (lines 38
  to 40) and the second (lines 43 to 65) at the mount and when a dependency differs from
  the previous render, the third (no dependency array) always. The second effect
  scrolls to the \<open>targetElement\<close> of this render; what the first effect passed to
  \<open>setTargetElement\<close> is the state of the next render. An error raised in an effect
  ends the model's account of the instance.
\<close>

definition commit :: "bool \<Rightarrow> document \<Rightarrow> hook \<Rightarrow> browser \<Rightarrow> js_error + hook \<times> browser" where
  "commit mounting doc h b =
     (let a = args h;
          deps = (targetElement h, getScrollContainerRef a, direction a, margin a)
      in case (if mounting \<or> scrollDeps h \<noteq> deps
               then scroll (getScrollContainer a) doc (targetElement h) (direction a) (margin a)
               else Inr []) of
           Inl err \<Rightarrow> Inl err
         | Inr scrolled \<Rightarrow>
             (case listen h ((unlisten h b)\<lparr>effects := effects b @ scrolled\<rparr>) of
                (c, b') \<Rightarrow>
                  Inr (h\<lparr>targetElement :=
                            (if mounting \<or> targetDeps h \<noteq> activeElementId a
                             then activeElementId a else targetElement h),
                         targetDeps := activeElementId a,
                         scrollDeps := deps,
                         cleanup := c\<rparr>, b')))"

text \<open>
  A render with its effects, and the second render that follows when the first effect
  changed \<open>targetElement\<close>. In that second render the first effect's dependency is
  unchanged, so no third render follows.
\<close>

definition render :: "bool \<Rightarrow> document \<Rightarrow> hook \<Rightarrow> browser \<Rightarrow> js_error + hook \<times> browser" where
  "render mounting doc h b =
     (case commit mounting doc h b of
        Inl err \<Rightarrow> Inl err
      | Inr (h', b') \<Rightarrow>
          if targetElement h' = targetElement h then Inr (h', b') else commit False doc h' b')"

text \<open>Line 103: what a render of the instance returns.\<close>

definition useScrollingNavigation :: "hook \<Rightarrow> string" where
  "useScrollingNavigation h = activeElement h"

text \<open>
  The first render: lines 29 and 31 initialise both states with \<open>activeElementId\<close>.
\<close>

definition mount :: "arguments \<Rightarrow> WindowDimensions \<Rightarrow> document \<Rightarrow> browser \<Rightarrow> js_error + world" where
  "mount a wd doc b =
     (case render True doc
             \<lparr>args = a, windowDimensions = wd,
              activeElement = activeElementId a, targetElement = activeElementId a,
              targetDeps = activeElementId a,
              scrollDeps = (activeElementId a, getScrollContainerRef a, direction a, margin a),
              cleanup = None\<rparr> b of
        Inl err \<Rightarrow> Inl err
      | Inr (h, b') \<Rightarrow> Inr (Some h, b'))"

text \<open>
  The calls of \<open>setActiveElement\<close> that a scroll event on the object \<open>target\<close> causes:
  every listener registered on that object runs, on the document as it is then.
\<close>

definition dispatchScroll :: "document \<Rightarrow> nat \<Rightarrow> browser \<Rightarrow> string list" where
  "dispatchScroll doc target b =
     concat (map (\<lambda>l. determineActiveElement doc (capturedIds l) (capturedDirection l)
                        (capturedDimensions l))
               (filter (\<lambda>l. eventTarget l = target) (listeners b)))"

text \<open>
  What happens to an instance: it is rendered again (new arguments from the parent, or
  new window dimensions), a scroll event is dispatched on an object, or it is
  unmounted. A state update that changes \<open>activeElement\<close> renders the instance again
  with the arguments it has (a host that passes other arguments at that render is the
  event \<open>Render\<close> after it); one that does not change it renders nothing. An unmount
  runs the cleanup of the third effect. An unmounted instance is not rendered, and a
  state update of it is dropped.
\<close>

datatype event = Render arguments WindowDimensions | ScrollEvent nat | Unmount

fun step :: "document \<Rightarrow> event \<Rightarrow> world \<Rightarrow> js_error + world" where
  "step doc (Render a wd) (None, b) = Inr (None, b)"
| "step doc (Render a wd) (Some h, b) =
     (case render False doc (h\<lparr>args := a, windowDimensions := wd\<rparr>) b of
        Inl err \<Rightarrow> Inl err
      | Inr (h', b') \<Rightarrow> Inr (Some h', b'))"
| "step doc (ScrollEvent target) (None, b) = Inr (None, b)"
| "step doc (ScrollEvent target) (Some h, b) =
     (let active = setActiveElement (activeElement h) (dispatchScroll doc target b) in
      if active = activeElement h then Inr (Some h, b)
      else
        (case render False doc (h\<lparr>activeElement := active\<rparr>) b of
           Inl err \<Rightarrow> Inl err
         | Inr (h', b') \<Rightarrow> Inr (Some h', b')))"
| "step doc Unmount (None, b) = Inr (None, b)"
| "step doc Unmount (Some h, b) = Inr (None, unlisten h b)"

text \<open>A history: each event with the document at the time it happens.\<close>

fun run :: "(document \<times> event) list \<Rightarrow> world \<Rightarrow> js_error + world" where
  "run [] w = Inr w"
| "run ((doc, e) # es) w = (case step doc e w of Inl err \<Rightarrow> Inl err | Inr w' \<Rightarrow> run es w')"

text \<open>The browser before the instance is mounted: it has registered nothing.\<close>

definition start :: browser where
  "start = \<lparr>listeners = [], closures = 0, effects = []\<rparr>"

text \<open>
  The state of an instance between two events, when every render that was due has run:
  \<open>targetElement\<close> and the dependency arrays agree with the arguments, and the
  registered listeners are exactly the one the latest run of the third effect attached
  (none when it found no container), on the container of the arguments, with what that
  render had in scope. An unmounted instance has no listener. During a render the
  weaker \<open>owned\<close> holds: the registered listeners are the one that the pending cleanup
  removes.
\<close>

definition owned :: "hook \<Rightarrow> browser \<Rightarrow> bool" where
  "owned h b =
     (map (\<lambda>l. (eventTarget l, callback l)) (listeners b)
        = (case cleanup h of None \<Rightarrow> [] | Some p \<Rightarrow> [p]))"

definition settled :: "world \<Rightarrow> bool" where
  "settled w =
     (case fst w of
        None \<Rightarrow> listeners (snd w) = []
      | Some h \<Rightarrow>
          targetElement h = activeElementId (args h)
          \<and> targetDeps h = activeElementId (args h)
          \<and> scrollDeps h =
              (activeElementId (args h), getScrollContainerRef (args h),
               direction (args h), margin (args h))
          \<and> map_option fst (cleanup h) = map_option objectId (getScrollContainer (args h) ())
          \<and> listeners (snd w) =
              (case cleanup h of
                 None \<Rightarrow> []
               | Some (target, cb) \<Rightarrow>
                   [\<lparr>eventTarget = target, callback = cb,
                     capturedIds = elementsIds (args h),
                     capturedDirection = direction (args h),
                     capturedDimensions = windowDimensions h\<rparr>]))"

text \<open>
  Arguments whose container is of the declared type \<open>HTMLElement | Window | null\<close>, or
  is an object that \<open>getScroll\<close> does not recognise: with them no effect raises.
\<close>

definition declared :: "arguments \<Rightarrow> bool" where
  "declared a = (case getScrollContainer a () of None \<Rightarrow> True
     | Some c \<Rightarrow> isWindow c \<or> isHTMLElement c \<or> (scrollX c = None \<and> scrollLeft c = None))"

section \<open>Properties of \<open>getScroll\<close>\<close>

lemma getScroll_window_numbers:
  "scrollX element = Some sx \<Longrightarrow> scrollY element = Some sy \<Longrightarrow>
     getScroll element = Inr (map Some [sx, sy, 0, 0], [])"
  by (simp add: getScroll_def)

lemma getScroll_element_numbers:
  "scrollX element = None \<Longrightarrow> scrollLeft element = Some sl \<Longrightarrow> scrollTop element = Some st \<Longrightarrow>
   getBoundingClientRect element = Some rect \<Longrightarrow>
     getScroll element = Inr (map Some [sl, st, rect_left rect, rect_top rect], [])"
  by (simp add: getScroll_def)

lemma getScroll_neither_numbers:
  "scrollX element = None \<Longrightarrow> scrollLeft element = None \<Longrightarrow>
     getScroll element =
       Inr (map Some [0, 0, 0, 0],
            [ConsoleError ''The element is neither of type Window or HTMLElement'' element])"
  by (simp add: getScroll_def)

lemma getScroll_four:
  assumes "isWindow element \<or> isHTMLElement element
           \<or> (scrollX element = None \<and> scrollLeft element = None)"
  shows "\<exists>numbers logged. getScroll element = Inr (map Some numbers, logged) \<and> length numbers = 4"
proof -
  from assms consider (w) "isWindow element" | (h) "isHTMLElement element"
    | (n) "scrollX element = None \<and> scrollLeft element = None" by auto
  then show ?thesis
  proof cases
    case w
    then obtain sx sy where "scrollX element = Some sx" "scrollY element = Some sy"
      by (auto simp: isWindow_def)
    then have "getScroll element = Inr (map Some [sx, sy, 0, 0], [])"
      by (rule getScroll_window_numbers)
    moreover have "length [sx, sy, 0, 0] = 4" by simp
    ultimately show ?thesis by blast
  next
    case h
    then obtain sl st rect where "scrollX element = None" "scrollLeft element = Some sl"
      "scrollTop element = Some st" "getBoundingClientRect element = Some rect"
      by (auto simp: isHTMLElement_def)
    then have "getScroll element = Inr (map Some [sl, st, rect_left rect, rect_top rect], [])"
      by (rule getScroll_element_numbers)
    moreover have "length [sl, st, rect_left rect, rect_top rect] = 4" by simp
    ultimately show ?thesis by blast
  next
    case n
    then have "getScroll element =
       Inr (map Some [0, 0, 0, 0],
            [ConsoleError ''The element is neither of type Window or HTMLElement'' element])"
      by (simp add: getScroll_neither_numbers)
    moreover have "length [0::real, 0, 0, 0] = 4" by simp
    ultimately show ?thesis by blast
  qed
qed

text \<open>
  The one way \<open>getScroll\<close> raises: an object with \<open>scrollLeft\<close> and without
  \<open>scrollX\<close> that has no \<open>getBoundingClientRect\<close> method. No \<open>Window\<close> and no
  \<open>HTMLElement\<close> is such an object.
\<close>

lemma getScroll_raises:
  "scrollX element = None \<Longrightarrow> scrollLeft element = Some sl \<Longrightarrow>
   getBoundingClientRect element = None \<Longrightarrow> getScroll element = Inl TypeError"
  by (simp add: getScroll_def)



text \<open>
  C6. For every object that has neither a \<open>scrollX\<close> nor a \<open>scrollLeft\<close> property,
  \<open>getScroll\<close> logs one error to the console, naming the object, and returns
  \<open>[0, 0, 0, 0]\<close>.
\<close>

theorem getScroll_unrecognised:
  "scrollX element = None \<and> scrollLeft element = None \<longrightarrow>
     getScroll element =
       Inr ([Some 0, Some 0, Some 0, Some 0],
            [ConsoleError ''The element is neither of type Window or HTMLElement'' element])"
  by (simp add: getScroll_def)

theorem getScroll_unrecognised_witness:
  "getScroll \<lparr>objectId = 7, scrollX = None, scrollY = None, scrollLeft = None,
              scrollTop = None, getBoundingClientRect = None\<rparr>
     = Inr ([Some 0, Some 0, Some 0, Some 0],
            [ConsoleError ''The element is neither of type Window or HTMLElement''
               \<lparr>objectId = 7, scrollX = None, scrollY = None, scrollLeft = None,
                scrollTop = None, getBoundingClientRect = None\<rparr>])"
  using getScroll_unrecognised [of "\<lparr>objectId = 7, scrollX = None, scrollY = None, scrollLeft = None,
              scrollTop = None, getBoundingClientRect = None\<rparr>"]
  by simp

section \<open>Properties of \<open>scroll\<close>\<close>

lemma item_Cons:
  "item (x # xs) 0 = x" "item (x # xs) (Suc n) = item xs n"
  by (simp_all add: item_def)

lemma item_four:
  "item [a, b, c, d] 0 = a" "item [a, b, c, d] 1 = b" "item [a, b, c, d] 2 = c"
  "item [a, b, c, d] 3 = d"
  by (simp_all add: item_Cons numeral_2_eq_2 numeral_3_eq_3)

text \<open>
  C4. When the target ID is the empty string, \<open>scroll\<close> returns at once: \<open>scrollTo\<close>
  is not called and there is no other effect, whatever the container and the document.
\<close>

theorem scroll_empty_target:
  "scroll getContainer doc [] dir m = Inr []"
  by (simp add: scroll_def)

theorem scroll_empty_target_witness:
  "scroll (\<lambda>u. Some \<lparr>objectId = 0, scrollX = Some 3, scrollY = Some 40, scrollLeft = None,
                       scrollTop = None, getBoundingClientRect = None\<rparr>)
     (\<lambda>i. Some \<lparr>boundingClientRect =
                  \<lparr>rect_left = 0, rect_top = 100, rect_right = 50, rect_bottom = 300\<rparr>\<rparr>)
     [] ScrollDirection_y 10 = Inr []"
  using scroll_empty_target [of "\<lambda>u. Some \<lparr>objectId = 0, scrollX = Some 3, scrollY = Some 40,
      scrollLeft = None, scrollTop = None, getBoundingClientRect = None\<rparr>"
    "\<lambda>i. Some \<lparr>boundingClientRect =
                  \<lparr>rect_left = 0, rect_top = 100, rect_right = 50, rect_bottom = 300\<rparr>\<rparr>"
    ScrollDirection_y 10]
  by simp

text \<open>
  C5. When \<open>getScrollContainer()\<close> is \<open>null\<close>, or no element has the target ID,
  \<open>scroll\<close> does nothing: no call of \<open>scrollTo\<close>, nothing logged, no error.
\<close>

theorem scroll_missing:
  "getContainer () = None \<or> getElementById doc target = None \<Longrightarrow>
     scroll getContainer doc target dir m = Inr []"
  by (auto simp: scroll_def split: option.splits)

theorem scroll_missing_witness:
  "scroll (\<lambda>u. None)
     (\<lambda>i. Some \<lparr>boundingClientRect =
                  \<lparr>rect_left = 0, rect_top = 100, rect_right = 50, rect_bottom = 300\<rparr>\<rparr>)
     ''intro'' ScrollDirection_y 10 = Inr []
   \<and> scroll (\<lambda>u. Some \<lparr>objectId = 0, scrollX = Some 3, scrollY = Some 40, scrollLeft = None,
                       scrollTop = None, getBoundingClientRect = None\<rparr>)
     (\<lambda>i. None) ''intro'' ScrollDirection_x 0 = Inr []"
  using scroll_missing [of "\<lambda>u. None"
      "\<lambda>i. Some \<lparr>boundingClientRect =
                  \<lparr>rect_left = 0, rect_top = 100, rect_right = 50, rect_bottom = 300\<rparr>\<rparr>"
      "''intro''" ScrollDirection_y 10]
    scroll_missing [of "\<lambda>u. Some \<lparr>objectId = 0, scrollX = Some 3, scrollY = Some 40,
      scrollLeft = None, scrollTop = None, getBoundingClientRect = None\<rparr>"
      "\<lambda>i. None" "''intro''" ScrollDirection_x 0]
  by (simp add: getElementById_def)



lemma scroll_returns:
  assumes "\<forall>c. getContainer () = Some c \<longrightarrow>
             isWindow c \<or> isHTMLElement c \<or> (scrollX c = None \<and> scrollLeft c = None)"
  shows "\<exists>scrolled. scroll getContainer doc target dir m = Inr scrolled"
proof (cases "getContainer ()")
  case None
  then show ?thesis by (simp add: scroll_def)
next
  case (Some c)
  with assms have "isWindow c \<or> isHTMLElement c \<or> (scrollX c = None \<and> scrollLeft c = None)" by simp
  then obtain numbers logged where "getScroll c = Inr (map Some numbers, logged)"
    using getScroll_four by blast
  with Some show ?thesis by (simp add: scroll_def Let_def split: option.splits)
qed

section \<open>Properties of the scroll listener\<close>








section \<open>Properties of the mounted hook\<close>

text \<open>
  One run of the effects: the cleanup empties the registry, the third effect fills it
  with the listener of this render, and nothing but \<open>targetElement\<close>, the dependency
  arrays and the cleanup changes in the instance.
\<close>

lemma unlisten_owned: "owned h b \<Longrightarrow> listeners (unlisten h b) = []"
  by (auto simp: owned_def unlisten_def removeEventListener_def split: option.splits)

lemma unlisten_rest: "closures (unlisten h b) = closures b" "effects (unlisten h b) = effects b"
  by (simp_all add: unlisten_def split: option.splits)

lemma listen_fresh:
  "listeners b = [] \<Longrightarrow> listen h b = (c, b') \<Longrightarrow>
     listeners b' =
       (case c of None \<Rightarrow> []
        | Some (target, cb) \<Rightarrow>
            [\<lparr>eventTarget = target, callback = cb, capturedIds = elementsIds (args h),
              capturedDirection = direction (args h),
              capturedDimensions = windowDimensions h\<rparr>])
     \<and> effects b' = effects b"
  by (auto simp: listen_def addEventListener_def split: option.splits)

lemma commit_result:
  assumes "owned h b" and "commit mounting doc h b = Inr (h', b')"
  shows "args h' = args h \<and> windowDimensions h' = windowDimensions h
     \<and> activeElement h' = activeElement h
     \<and> targetElement h' = (if mounting \<or> targetDeps h \<noteq> activeElementId (args h)
                            then activeElementId (args h) else targetElement h)
     \<and> targetDeps h' = activeElementId (args h)
     \<and> scrollDeps h' = (targetElement h, getScrollContainerRef (args h), direction (args h), margin (args h))
     \<and> map_option fst (cleanup h') = map_option objectId (getScrollContainer (args h) ())
     \<and> listeners b' =
        (case cleanup h' of None \<Rightarrow> []
         | Some (target, cb) \<Rightarrow>
            [\<lparr>eventTarget = target, callback = cb, capturedIds = elementsIds (args h),
              capturedDirection = direction (args h),
              capturedDimensions = windowDimensions h\<rparr>])"
proof -
  let ?deps = "(targetElement h, getScrollContainerRef (args h), direction (args h), margin (args h))"
  let ?run = "if mounting \<or> scrollDeps h \<noteq> ?deps
               then scroll (getScrollContainer (args h)) doc (targetElement h) (direction (args h)) (margin (args h))
               else Inr []"
  from assms(2) obtain scrolled where s: "?run = Inr scrolled"
    by (cases ?run) (simp_all add: commit_def Let_def)
  obtain c b2 where l: "listen h ((unlisten h b)\<lparr>effects := effects b @ scrolled\<rparr>) = (c, b2)"
    by (cases "listen h ((unlisten h b)\<lparr>effects := effects b @ scrolled\<rparr>)")
  have "listeners ((unlisten h b)\<lparr>effects := effects b @ scrolled\<rparr>) = []"
    using assms(1) by (simp add: unlisten_owned)
  from listen_fresh [OF this l]
  have ls: "listeners b2 = (case c of None \<Rightarrow> []
        | Some (target, cb) \<Rightarrow>
            [\<lparr>eventTarget = target, callback = cb, capturedIds = elementsIds (args h),
              capturedDirection = direction (args h),
              capturedDimensions = windowDimensions h\<rparr>])" by simp
  from assms(2) s l have h': "h' = h\<lparr>targetElement :=
                            (if mounting \<or> targetDeps h \<noteq> activeElementId (args h)
                             then activeElementId (args h) else targetElement h),
                         targetDeps := activeElementId (args h),
                         scrollDeps := ?deps,
                         cleanup := c\<rparr>" and b': "b' = b2"
    by (simp_all add: commit_def Let_def)
  from l have "map_option fst c = map_option objectId (getScrollContainer (args h) ())"
    by (auto simp: listen_def split: option.splits)
  then show ?thesis using ls by (simp add: h' b')
qed

lemma owned_after_commit:
  assumes "owned h b" and "commit mounting doc h b = Inr (h', b')"
  shows "owned h' b'"
  using commit_result [OF assms] by (auto simp: owned_def split: option.splits)

lemma commit_scrolls:
  assumes "commit mounting doc h b = Inr (h', b')"
    and "mounting \<or> scrollDeps h \<noteq> (targetElement h, getScrollContainerRef (args h), direction (args h), margin (args h))"
  shows "\<exists>scrolled. scroll (getScrollContainer (args h)) doc (targetElement h) (direction (args h)) (margin (args h)) = Inr scrolled
            \<and> effects b' = effects b @ scrolled"
  using assms
  by (auto simp: commit_def Let_def listen_def unlisten_rest split: sum.splits option.splits if_splits)

lemma commit_extends:
  assumes "commit mounting doc h b = Inr (h', b')"
  shows "\<exists>scrolled. effects b' = effects b @ scrolled"
  using assms
  by (auto simp: commit_def Let_def listen_def unlisten_rest split: sum.splits option.splits if_splits)

text \<open>A render leaves the instance settled and its active element as it was.\<close>

lemma render_settled:
  assumes o: "owned h b" and t: "targetDeps h = targetElement h"
    and r: "render mounting doc h b = Inr (h', b')"
  shows "settled (Some h', b') \<and> args h' = args h \<and> windowDimensions h' = windowDimensions h
           \<and> activeElement h' = activeElement h"
proof -
  from r obtain h1 b1 where c1: "commit mounting doc h b = Inr (h1, b1)"
    by (cases "commit mounting doc h b") (auto simp: render_def)
  note r1 = commit_result [OF o c1]
  show ?thesis
  proof (cases "targetElement h1 = targetElement h")
    case True
    with r c1 have "h' = h1" "b' = b1" by (simp_all add: render_def)
    with r1 True t show ?thesis by (auto simp: settled_def split: if_splits option.splits)
  next
    case False
    with r c1 have c2: "commit False doc h1 b1 = Inr (h', b')" by (simp add: render_def)
    have o1: "owned h1 b1" using o c1 by (rule owned_after_commit)
    note r2 = commit_result [OF o1 c2]
    from r1 r2 False show ?thesis by (auto simp: settled_def split: if_splits option.splits)
  qed
qed

lemma settled_owned:
  "settled (Some h, b) \<Longrightarrow> owned h b \<and> targetDeps h = targetElement h"
  by (auto simp: settled_def owned_def split: option.splits)

lemma owned_args: "owned (h\<lparr>args := a, windowDimensions := wd\<rparr>) b = owned h b"
  "owned (h\<lparr>activeElement := v\<rparr>) b = owned h b"
  by (simp_all add: owned_def)

lemma unmount_settled:
  "settled (Some h, b) \<Longrightarrow> listeners (unlisten h b) = []"
  by (simp add: settled_owned unlisten_owned)

text \<open>Every event, and so every history, keeps a settled world settled.\<close>

lemma step_settled:
  assumes "settled w" and "step doc e w = Inr w'"
  shows "settled w'"
proof (cases w)
  case (Pair m b)
  show ?thesis
  proof (cases m)
    case None
    with Pair assms show ?thesis by (cases e) auto
  next
    case (Some h)
    note so = settled_owned [OF assms(1) [unfolded Pair Some]]
    show ?thesis
    proof (cases e)
      case (Render a wd)
      with assms(2) Pair Some obtain h' b' where
        r: "render False doc (h\<lparr>args := a, windowDimensions := wd\<rparr>) b = Inr (h', b')"
        and w': "w' = (Some h', b')"
        by (auto split: sum.splits)
      from so have "owned (h\<lparr>args := a, windowDimensions := wd\<rparr>) b"
        "targetDeps (h\<lparr>args := a, windowDimensions := wd\<rparr>) = targetElement (h\<lparr>args := a, windowDimensions := wd\<rparr>)"
        by (simp_all add: owned_args)
      from render_settled [OF this r] w' show ?thesis by simp
    next
      case (ScrollEvent target)
      let ?active = "setActiveElement (activeElement h) (dispatchScroll doc target b)"
      show ?thesis
      proof (cases "?active = activeElement h")
        case True
        with assms Pair Some ScrollEvent show ?thesis by (simp add: Let_def)
      next
        case False
        with assms(2) Pair Some ScrollEvent obtain h' b' where
          r: "render False doc (h\<lparr>activeElement := ?active\<rparr>) b = Inr (h', b')"
          and w': "w' = (Some h', b')"
          by (auto simp: Let_def split: sum.splits)
        from so have "owned (h\<lparr>activeElement := ?active\<rparr>) b"
          "targetDeps (h\<lparr>activeElement := ?active\<rparr>) = targetElement (h\<lparr>activeElement := ?active\<rparr>)"
          by (simp_all add: owned_args)
        from render_settled [OF this r] w' show ?thesis by simp
      qed
    next
      case Unmount
      with assms Pair Some show ?thesis
        by (auto simp: unmount_settled settled_def)
    qed
  qed
qed

lemma run_settled:
  "settled w \<Longrightarrow> run history w = Inr w' \<Longrightarrow> settled w'"
proof (induction history arbitrary: w)
  case Nil
  then show ?case by simp
next
  case (Cons de history)
  obtain doc e where de: "de = (doc, e)" by (cases de)
  with Cons.prems obtain w1 where s: "step doc e w = Inr w1" and r: "run history w1 = Inr w'"
    by (auto split: sum.splits)
  from Cons.prems(1) s have "settled w1" by (rule step_settled)
  then show ?case using r by (rule Cons.IH)
qed

lemma mount_settled:
  assumes "listeners b = []" and "mount a wd doc b = Inr w"
  shows "settled w \<and> (\<exists>h b'. w = (Some h, b') \<and> args h = a \<and> windowDimensions h = wd
            \<and> activeElement h = activeElementId a)"
proof -
  let ?h = "\<lparr>args = a, windowDimensions = wd,
              activeElement = activeElementId a, targetElement = activeElementId a,
              targetDeps = activeElementId a,
              scrollDeps = (activeElementId a, getScrollContainerRef a, direction a, margin a),
              cleanup = None\<rparr>"
  from assms(2) obtain h b' where r: "render True doc ?h b = Inr (h, b')" and w: "w = (Some h, b')"
    by (auto simp: mount_def split: sum.splits)
  have "owned ?h b" using assms(1) by (simp add: owned_def)
  moreover have "targetDeps ?h = targetElement ?h" by simp
  ultimately have "settled (Some h, b') \<and> args h = args ?h \<and>
      windowDimensions h = windowDimensions ?h \<and> activeElement h = activeElement ?h"
    using r by (rule render_settled)
  with w show ?thesis by simp
qed

lemma run_unmounted: "run history (None, b) = Inr (None, b)"
proof (induction history)
  case Nil
  show ?case by simp
next
  case (Cons de history)
  obtain doc e where de: "de = (doc, e)" by (cases de)
  have "step doc e (None, b) = Inr (None, b)" by (cases e) simp_all
  with Cons de show ?case by simp
qed

lemma dispatchScroll_none: "listeners b = [] \<Longrightarrow> dispatchScroll doc target b = []"
  by (simp add: dispatchScroll_def)

text \<open>
  A render whose \<open>activeElementId\<close> is not the current target runs the effects twice,
  and the second run scrolls to the new target.
\<close>

lemma render_scrolls_to_new_target:
  assumes o: "owned h b" and t: "targetDeps h = targetElement h"
    and changed: "activeElementId (args h) \<noteq> targetElement h"
    and r: "render False doc h b = Inr (h', b')"
  shows "\<exists>before scrolled.
           scroll (getScrollContainer (args h)) doc (activeElementId (args h))
             (direction (args h)) (margin (args h)) = Inr scrolled
           \<and> effects b' = effects b @ before @ scrolled"
proof -
  from r obtain h1 b1 where c1: "commit False doc h b = Inr (h1, b1)"
    by (cases "commit False doc h b") (auto simp: render_def)
  note r1 = commit_result [OF o c1]
  from r1 t changed have new: "targetElement h1 = activeElementId (args h)" by simp
  with changed have "targetElement h1 \<noteq> targetElement h" by simp
  with r c1 have c2: "commit False doc h1 b1 = Inr (h', b')" by (simp add: render_def)
  from r1 new changed have "scrollDeps h1 \<noteq>
      (targetElement h1, getScrollContainerRef (args h1), direction (args h1), margin (args h1))"
    by simp
  then have "False \<or> scrollDeps h1 \<noteq>
      (targetElement h1, getScrollContainerRef (args h1), direction (args h1), margin (args h1))"
    by simp
  from commit_scrolls [OF c2 this] obtain scrolled where
    s: "scroll (getScrollContainer (args h1)) doc (targetElement h1) (direction (args h1))
          (margin (args h1)) = Inr scrolled"
    and e2: "effects b' = effects b1 @ scrolled" by blast
  from commit_extends [OF c1] obtain before where e1: "effects b1 = effects b @ before" by blast
  from s r1 new have "scroll (getScrollContainer (args h)) doc (activeElementId (args h))
             (direction (args h)) (margin (args h)) = Inr scrolled" by simp
  with e1 e2 show ?thesis by simp
qed

lemma run_without_scroll:
  assumes "settled (Some h0, b0)" and "run history (Some h0, b0) = Inr (Some h, b)"
    and "\<not> list_ex (\<lambda>de. case snd de of ScrollEvent target \<Rightarrow> True | _ \<Rightarrow> False) history"
  shows "activeElement h = activeElement h0"
  using assms
proof (induction history arbitrary: h0 b0)
  case Nil
  then show ?case by simp
next
  case (Cons de history)
  obtain doc e where de: "de = (doc, e)" by (cases de)
  with Cons.prems(2) obtain w1 where s: "step doc e (Some h0, b0) = Inr w1"
    and r: "run history w1 = Inr (Some h, b)"
    by (auto split: sum.splits)
  from Cons.prems(1) s have s1: "settled w1" by (rule step_settled)
  note so = settled_owned [OF Cons.prems(1)]
  show ?case
  proof (cases e)
    case (Render a wd)
    with s obtain h1 b1 where
      rr: "render False doc (h0\<lparr>args := a, windowDimensions := wd\<rparr>) b0 = Inr (h1, b1)"
      and w1: "w1 = (Some h1, b1)"
      by (auto split: sum.splits)
    from so have "owned (h0\<lparr>args := a, windowDimensions := wd\<rparr>) b0"
      "targetDeps (h0\<lparr>args := a, windowDimensions := wd\<rparr>)
         = targetElement (h0\<lparr>args := a, windowDimensions := wd\<rparr>)"
      by (simp_all add: owned_args)
    from render_settled [OF this rr] have a1: "activeElement h1 = activeElement h0" by simp
    from Cons.prems(3) have "\<not> list_ex (\<lambda>de. case snd de of ScrollEvent target \<Rightarrow> True | _ \<Rightarrow> False) history"
      by simp
    from Cons.IH [OF s1 [unfolded w1] r [unfolded w1] this] a1 show ?thesis by simp
  next
    case (ScrollEvent target)
    with Cons.prems(3) de show ?thesis by simp
  next
    case Unmount
    with s have "w1 = (None, unlisten h0 b0)" by simp
    with r show ?thesis by (simp add: run_unmounted)
  qed
qed




text \<open>
  With a container of the declared type the mount and every render return: the
  histories that the properties below speak of exist.
\<close>

lemma declared_scroll:
  "declared a \<Longrightarrow> \<exists>scrolled. scroll (getScrollContainer a) doc target dir m = Inr scrolled"
  by (rule scroll_returns) (auto simp: declared_def)

lemma commit_returns:
  assumes "declared (args h)"
  shows "\<exists>h' b'. commit mounting doc h b = Inr (h', b') \<and> args h' = args h"
proof -
  from declared_scroll [OF assms] obtain scrolled where
    "scroll (getScrollContainer (args h)) doc (targetElement h) (direction (args h))
       (margin (args h)) = Inr scrolled" by blast
  then show ?thesis
    by (simp add: commit_def Let_def split: prod.splits)
qed

lemma render_returns:
  assumes "declared (args h)"
  shows "\<exists>h' b'. render mounting doc h b = Inr (h', b')"
proof -
  from commit_returns [OF assms] obtain h1 b1 where
    c1: "commit mounting doc h b = Inr (h1, b1)" and a: "args h1 = args h" by blast
  from assms a have "declared (args h1)" by simp
  from commit_returns [OF this] obtain h2 b2 where
    "commit False doc h1 b1 = Inr (h2, b2)" by blast
  with c1 show ?thesis by (simp add: render_def)
qed

lemma mount_returns:
  "declared a \<Longrightarrow> \<exists>w. mount a wd doc b = Inr w"
proof -
  assume d: "declared a"
  let ?h = "\<lparr>args = a, windowDimensions = wd,
              activeElement = activeElementId a, targetElement = activeElementId a,
              targetDeps = activeElementId a,
              scrollDeps = (activeElementId a, getScrollContainerRef a, direction a, margin a),
              cleanup = None\<rparr>"
  from d have "declared (args ?h)" by simp
  from render_returns [OF this] obtain h' b' where "render True doc ?h b = Inr (h', b')" by blast
  then show ?thesis by (simp add: mount_def)
qed

lemma render_event_returns:
  "declared a \<Longrightarrow> \<exists>w'. step doc (Render a wd) w = Inr w'"
proof -
  assume d: "declared a"
  obtain mounted b where w: "w = (mounted, b)" by (cases w)
  show ?thesis
  proof (cases mounted)
    case None
    with w show ?thesis by simp
  next
    case (Some h)
    from d have "declared (args (h\<lparr>args := a, windowDimensions := wd\<rparr>))" by simp
    from render_returns [OF this] obtain h' b' where
      "render False doc (h\<lparr>args := a, windowDimensions := wd\<rparr>) b = Inr (h', b')" by blast
    with Some w show ?thesis by simp
  qed
qed

text \<open>The definitions that evaluate a concrete history.\<close>

lemmas run_example =
  mount_def render_def commit_def scroll_def getElementById_def getScroll_def listen_def
  unlisten_def addEventListener_def removeEventListener_def start_def dispatchScroll_def
  setActiveElement_def useScrollingNavigation_def satisfiesThreshold_def
  item_Cons numeral_2_eq_2 numeral_3_eq_3 js_add_def js_sub_def Let_def





text \<open>
  C7. After any history of a mounted instance, the only registered listener is the one
  on the current container, and the unmount removes it: no listener is left, so a scroll
  event on any object calls \<open>setActiveElement\<close> not once, and no later event changes
  anything.
\<close>

theorem unmount_removes_listener:
  assumes "mount a wd doc0 start = Inr w" and "run history w = Inr w'"
  shows "(\<forall>h b0 container. w' = (Some h, b0) \<and> getScrollContainer (args h) () = Some container \<longrightarrow>
            map eventTarget (listeners b0) = [objectId container])
     \<and> (\<exists>b. step doc Unmount w' = Inr (None, b) \<and> listeners b = []
           \<and> (\<forall>doc' target. dispatchScroll doc' target b = [])
           \<and> (\<forall>later. run later (None, b) = Inr (None, b)))"
proof -
  have "listeners start = []" by (simp add: start_def)
  from mount_settled [OF this assms(1)] have "settled w" by simp
  then have s: "settled w'" using assms(2) by (rule run_settled)
  obtain mounted b0 where w': "w' = (mounted, b0)" by (cases w')
  have attached: "map eventTarget (listeners b0) = [objectId container]"
    if "mounted = Some h" and "getScrollContainer (args h) () = Some container" for h container
  proof -
    from s w' that have "map_option fst (cleanup h) = Some (objectId container)"
      by (simp add: settled_def)
    then obtain cb where "cleanup h = Some (objectId container, cb)" by auto
    with s w' that(1) show ?thesis by (simp add: settled_def)
  qed
  have removed: "\<exists>b. step doc Unmount w' = Inr (None, b) \<and> listeners b = []
           \<and> (\<forall>doc' target. dispatchScroll doc' target b = [])
           \<and> (\<forall>later. run later (None, b) = Inr (None, b))"
  proof (cases mounted)
    case None
    with s w' have "listeners b0 = []" by (simp add: settled_def)
    with None w' show ?thesis by (simp add: dispatchScroll_none run_unmounted)
  next
    case (Some h)
    with s w' have "listeners (unlisten h b0) = []" by (simp add: unmount_settled)
    with Some w' show ?thesis by (simp add: dispatchScroll_none run_unmounted)
  qed
  from attached removed w' show ?thesis by simp
qed

theorem unmount_removes_listener_witness:
  "\<exists>w w' b.
     mount \<lparr>getScrollContainer = (\<lambda>u. Some \<lparr>objectId = 0, scrollX = Some 0, scrollY = Some 40, scrollLeft = None,
        scrollTop = None, getBoundingClientRect = None\<rparr>),
      getScrollContainerRef = 0, elementsIds = [''a'', ''b''], activeElementId = ''a'',
      direction = ScrollDirection_y, margin = 0\<rparr> \<lparr>width = 1000, height = 800\<rparr> (\<lambda>i. if i = ''a'' then Some \<lparr>boundingClientRect =
             \<lparr>rect_left = 0, rect_top = 0, rect_right = 1000, rect_bottom = 500\<rparr>\<rparr>
          else if i = ''b'' then Some \<lparr>boundingClientRect =
             \<lparr>rect_left = 0, rect_top = 500, rect_right = 1000, rect_bottom = 1000\<rparr>\<rparr>
          else None) start = Inr w
     \<and> run [((\<lambda>i. if i = ''a'' then Some \<lparr>boundingClientRect =
             \<lparr>rect_left = 0, rect_top = - 450, rect_right = 1000, rect_bottom = 50\<rparr>\<rparr>
          else if i = ''b'' then Some \<lparr>boundingClientRect =
             \<lparr>rect_left = 0, rect_top = 50, rect_right = 1000, rect_bottom = 550\<rparr>\<rparr>
          else None), ScrollEvent 0)] w = Inr w'
     \<and> map eventTarget (listeners (snd w')) = [0]
     \<and> step (\<lambda>i. if i = ''a'' then Some \<lparr>boundingClientRect =
             \<lparr>rect_left = 0, rect_top = - 450, rect_right = 1000, rect_bottom = 50\<rparr>\<rparr>
          else if i = ''b'' then Some \<lparr>boundingClientRect =
             \<lparr>rect_left = 0, rect_top = 50, rect_right = 1000, rect_bottom = 550\<rparr>\<rparr>
          else None) Unmount w' = Inr (None, b)
     \<and> listeners b = []
     \<and> run [((\<lambda>i. if i = ''a'' then Some \<lparr>boundingClientRect =
             \<lparr>rect_left = 0, rect_top = 0, rect_right = 1000, rect_bottom = 500\<rparr>\<rparr>
          else if i = ''b'' then Some \<lparr>boundingClientRect =
             \<lparr>rect_left = 0, rect_top = 500, rect_right = 1000, rect_bottom = 1000\<rparr>\<rparr>
          else None), ScrollEvent 0)] (None, b) = Inr (None, b)"
  (is "\<exists>w w' b. mount ?a ?wd ?doc0 start = Inr w \<and> run ?history w = Inr w' \<and> _ \<and>
      step ?doc1 Unmount w' = _ \<and> _ \<and> run ?later _ = _")
proof -
  obtain w where m: "mount ?a ?wd ?doc0 start = Inr w"
    by (simp add: run_example)
  obtain w' where r: "run ?history w = Inr w'"
    and l: "map eventTarget (listeners (snd w')) = [0]"
    using m by (auto simp: run_example)
  from unmount_removes_listener [OF m r, of ?doc1] obtain b where
    "step ?doc1 Unmount w' = Inr (None, b) \<and> listeners b = []
       \<and> run ?later (None, b) = Inr (None, b)"
    by blast
  with m r l have "mount ?a ?wd ?doc0 start = Inr w \<and> run ?history w = Inr w'
     \<and> map eventTarget (listeners (snd w')) = [0]
     \<and> step ?doc1 Unmount w' = Inr (None, b) \<and> listeners b = []
     \<and> run ?later (None, b) = Inr (None, b)"
    by simp
  then show ?thesis by (intro exI)
qed

text \<open>
  C9. A render of a mounted instance with new arguments returns the same active element
  as the render before it. It sets \<open>targetElement\<close> to the new \<open>activeElementId\<close>
  and, when that differs from the old one, the last thing it does is to scroll to the
  new target. The returned value changes in scroll events only: after a history without
  one it is still the \<open>activeElementId\<close> of the first render.
\<close>

theorem argument_change_keeps_active:
  assumes m: "mount a0 wd0 doc0 start = Inr w" and r: "run history w = Inr (Some h, b)"
    and s: "step doc (Render a wd) (Some h, b) = Inr w'"
  shows "\<exists>h' b'. w' = (Some h', b')
      \<and> useScrollingNavigation h' = useScrollingNavigation h
      \<and> targetElement h' = activeElementId a
      \<and> (activeElementId a \<noteq> activeElementId (args h) \<longrightarrow>
           (\<exists>before scrolled.
              scroll (getScrollContainer a) doc (activeElementId a) (direction a) (margin a)
                = Inr scrolled
              \<and> effects b' = effects b @ before @ scrolled))
      \<and> (\<not> list_ex (\<lambda>de. case snd de of ScrollEvent target \<Rightarrow> True | _ \<Rightarrow> False) history \<longrightarrow>
           useScrollingNavigation h' = activeElementId a0)"
proof -
  have "listeners start = []" by (simp add: start_def)
  from mount_settled [OF this m] obtain h0 b0 where
    s0: "settled w" and w: "w = (Some h0, b0)" and a0: "activeElement h0 = activeElementId a0"
    by blast
  from s0 r have sh: "settled (Some h, b)" by (rule run_settled)
  note so = settled_owned [OF sh]
  let ?h = "h\<lparr>args := a, windowDimensions := wd\<rparr>"
  from s obtain h' b' where rr: "render False doc ?h b = Inr (h', b')" and w': "w' = (Some h', b')"
    by (auto split: sum.splits)
  from so have o: "owned ?h b" and t: "targetDeps ?h = targetElement ?h"
    by (simp_all add: owned_args)
  from render_settled [OF o t rr] have st: "settled (Some h', b')" and ar: "args h' = a"
    and ac: "activeElement h' = activeElement h" by simp_all
  from st ar have tg: "targetElement h' = activeElementId a" by (simp add: settled_def)
  have sc: "\<exists>before scrolled.
              scroll (getScrollContainer a) doc (activeElementId a) (direction a) (margin a)
                = Inr scrolled
              \<and> effects b' = effects b @ before @ scrolled"
    if "activeElementId a \<noteq> activeElementId (args h)"
  proof -
    from sh have "targetElement h = activeElementId (args h)" by (simp add: settled_def)
    with that have "activeElementId (args ?h) \<noteq> targetElement ?h" by simp
    from render_scrolls_to_new_target [OF o t this rr] show ?thesis by simp
  qed
  have tr: "useScrollingNavigation h' = activeElementId a0"
    if "\<not> list_ex (\<lambda>de. case snd de of ScrollEvent target \<Rightarrow> True | _ \<Rightarrow> False) history"
    using run_without_scroll [OF s0 [unfolded w] r [unfolded w] that] ac a0
    by (simp add: useScrollingNavigation_def)
  from w' ac tg sc tr show ?thesis by (simp add: useScrollingNavigation_def)
qed

theorem argument_change_keeps_active_witness:
  "\<exists>w h b h' b'.
     mount \<lparr>getScrollContainer = (\<lambda>u. Some \<lparr>objectId = 0, scrollX = Some 0, scrollY = Some 40, scrollLeft = None,
        scrollTop = None, getBoundingClientRect = None\<rparr>),
      getScrollContainerRef = 0, elementsIds = [''a'', ''b''], activeElementId = ''a'',
      direction = ScrollDirection_y, margin = 0\<rparr> \<lparr>width = 1000, height = 800\<rparr> (\<lambda>i. if i = ''a'' then Some \<lparr>boundingClientRect =
             \<lparr>rect_left = 0, rect_top = 0, rect_right = 1000, rect_bottom = 500\<rparr>\<rparr>
          else if i = ''b'' then Some \<lparr>boundingClientRect =
             \<lparr>rect_left = 0, rect_top = 500, rect_right = 1000, rect_bottom = 1000\<rparr>\<rparr>
          else None) start = Inr w
     \<and> run [] w = Inr (Some h, b)
     \<and> step (\<lambda>i. if i = ''a'' then Some \<lparr>boundingClientRect =
             \<lparr>rect_left = 0, rect_top = 0, rect_right = 1000, rect_bottom = 500\<rparr>\<rparr>
          else if i = ''b'' then Some \<lparr>boundingClientRect =
             \<lparr>rect_left = 0, rect_top = 500, rect_right = 1000, rect_bottom = 1000\<rparr>\<rparr>
          else None) (Render \<lparr>getScrollContainer = (\<lambda>u. Some \<lparr>objectId = 0, scrollX = Some 0, scrollY = Some 40, scrollLeft = None,
        scrollTop = None, getBoundingClientRect = None\<rparr>),
      getScrollContainerRef = 0, elementsIds = [''a'', ''b''], activeElementId = ''b'',
      direction = ScrollDirection_y, margin = 0\<rparr> \<lparr>width = 1000, height = 800\<rparr>) (Some h, b) = Inr (Some h', b')
     \<and> useScrollingNavigation h = ''a''
     \<and> useScrollingNavigation h' = ''a''
     \<and> targetElement h = ''a''
     \<and> targetElement h' = ''b''
     \<and> effects b' = effects b @
          [ScrollTo \<lparr>objectId = 0, scrollX = Some 0, scrollY = Some 40, scrollLeft = None,
        scrollTop = None, getBoundingClientRect = None\<rparr> \<lparr>opt_left = Some 0, opt_top = Some 540, opt_behavior = Smooth\<rparr>]"
  (is "\<exists>w h b h' b'. mount ?a ?wd ?doc0 start = Inr w \<and> _ \<and> step _ (Render ?ab _) _ = _ \<and> _")
proof -
  obtain w where m: "mount ?a ?wd ?doc0 start = Inr w"
    by (simp add: run_example)
  obtain h b where r: "run [] w = Inr (Some h, b)" and ar: "args h = ?a"
    and ac: "useScrollingNavigation h = ''a''" and tg: "targetElement h = ''a''"
    using m by (auto simp: run_example)
  obtain w' where s: "step ?doc0 (Render ?ab ?wd) (Some h, b) = Inr w'"
    and e: "effects (snd w') = effects b @
          [ScrollTo \<lparr>objectId = 0, scrollX = Some 0, scrollY = Some 40, scrollLeft = None,
        scrollTop = None, getBoundingClientRect = None\<rparr> \<lparr>opt_left = Some 0, opt_top = Some 540, opt_behavior = Smooth\<rparr>]"
    using m r by (auto simp: run_example)
  have "\<not> list_ex (\<lambda>de. case snd de of ScrollEvent target \<Rightarrow> True | _ \<Rightarrow> False) []" by simp
  with argument_change_keeps_active [OF m r s] obtain h' b' where
    "w' = (Some h', b') \<and> useScrollingNavigation h' = useScrollingNavigation h
      \<and> targetElement h' = ''b''"
    by auto
  with m r s ac tg e have "mount ?a ?wd ?doc0 start = Inr w
     \<and> run [] w = Inr (Some h, b)
     \<and> step ?doc0 (Render ?ab ?wd) (Some h, b) = Inr (Some h', b')
     \<and> useScrollingNavigation h = ''a''
     \<and> useScrollingNavigation h' = ''a''
     \<and> targetElement h = ''a''
     \<and> targetElement h' = ''b''
     \<and> effects b' = effects b @
          [ScrollTo \<lparr>objectId = 0, scrollX = Some 0, scrollY = Some 40, scrollLeft = None,
        scrollTop = None, getBoundingClientRect = None\<rparr> \<lparr>opt_left = Some 0, opt_top = Some 540, opt_behavior = Smooth\<rparr>]"
    by simp
  then show ?thesis by (intro exI)
qed

end
